theory Spec2Isabelle
  imports Complex_Main
begin

section \<open>Planning Poker: the room session state machine of the two servers\<close>

text \<open>
  The repository holds two versions of the Socket.IO server.  Both keep one global room
  (\<open>gameState\<close> / \<open>roomState\<close>) and register the same five handlers on every
  connection: \<open>join-game\<close>, \<open>start-voting\<close>, \<open>submit-vote\<close>, \<open>next-round\<close> and
  \<open>disconnect\<close>.  They differ in three places:
  \<^item> the first server (deck \<open>[1, 2, 3, 5, 10]\<close>) starts a vote only with two players or
    more and reveals the result inside \<open>submit-vote\<close>;
  \<^item> the second server (deck \<open>[1, 2, 3, 5, 8, 13, 21, 34, 55, 89]\<close>) starts a vote
    unconditionally and reveals the result in a \<open>setTimeout\<close> callback, 3000 ms after
    the vote that completed the round.
  Handlers that are the same text in both files are modelled once; the others carry the
  suffix \<open>1\<close> or \<open>2\<close>.  A handler is a function from the room state to the new room
  state and the list of what it sends, in order.  \<open>console.log\<close> and \<open>socket.join\<close>
  are not modelled.
\<close>

subsection \<open>JavaScript values that arrive as event payloads\<close>

text \<open>
  A finite number is a rational (every double is one); arithmetic on them is exact, the
  rounding of IEEE doubles is not modelled.
\<close>

datatype jsnumber = Num rat | NaN | PosInfinity | NegInfinity

datatype jsvalue =
    JSUndefined
  | JSNull
  | JSBoolean bool
  | JSNumber jsnumber
  | JSString string
  | JSObject

text \<open>The operand of \<open>!\<close> is falsy for \<open>undefined\<close>, \<open>null\<close>, \<open>false\<close>, \<open>0\<close>, \<open>NaN\<close> and the empty string.\<close>

fun falsy :: "jsvalue \<Rightarrow> bool" where
  "falsy JSUndefined = True"
| "falsy JSNull = True"
| "falsy (JSBoolean b) = (\<not> b)"
| "falsy (JSNumber n) = (n = Num 0 \<or> n = NaN)"
| "falsy (JSString s) = (s = [])"
| "falsy JSObject = False"

fun typeof :: "jsvalue \<Rightarrow> string" where
  "typeof JSUndefined = ''undefined''"
| "typeof JSNull = ''object''"
| "typeof (JSBoolean b) = ''boolean''"
| "typeof (JSNumber n) = ''number''"
| "typeof (JSString s) = ''string''"
| "typeof JSObject = ''object''"

text \<open>
  \<open>String.prototype.trim\<close> on the characters a \<open>char\<close> can hold: tab, line feed,
  vertical tab, form feed, carriage return, space and no-break space.
\<close>

definition is_white_space :: "char \<Rightarrow> bool" where
  "is_white_space c =
     (c \<in> set [CHR 0x09, CHR 0x0A, CHR 0x0B, CHR 0x0C, CHR 0x0D, CHR 0x20, CHR 0xA0])"

definition trim :: "string \<Rightarrow> string" where
  "trim s = rev (dropWhile is_white_space (rev (dropWhile is_white_space s)))"

subsection \<open>The JavaScript \<open>Map\<close>: entries in insertion order, keys unique\<close>

fun map_has :: "('k \<times> 'v) list \<Rightarrow> 'k \<Rightarrow> bool" where
  "map_has [] k = False"
| "map_has ((k', v') # m) k = (k' = k \<or> map_has m k)"

fun map_get :: "('k \<times> 'v) list \<Rightarrow> 'k \<Rightarrow> 'v option" where
  "map_get [] k = None"
| "map_get ((k', v') # m) k = (if k' = k then Some v' else map_get m k)"

text \<open>\<open>set\<close> replaces the value of a present key where it stands and appends a new key.\<close>

fun map_set :: "('k \<times> 'v) list \<Rightarrow> 'k \<Rightarrow> 'v \<Rightarrow> ('k \<times> 'v) list" where
  "map_set [] k v = [(k, v)]"
| "map_set ((k', v') # m) k v =
     (if k' = k then (k, v) # m else (k', v') # map_set m k v)"

text \<open>
  \<open>delete\<close> removes the entry of the key.  A \<open>Map\<close> holds a key once; on a list that
  held it twice every entry of the key goes.
\<close>

fun map_delete :: "('k \<times> 'v) list \<Rightarrow> 'k \<Rightarrow> ('k \<times> 'v) list" where
  "map_delete [] k = []"
| "map_delete ((k', v') # m) k =
     (if k' = k then map_delete m k else (k', v') # map_delete m k)"

definition map_size :: "('k \<times> 'v) list \<Rightarrow> nat" where
  "map_size m = length m"

definition map_values :: "('k \<times> 'v) list \<Rightarrow> 'v list" where
  "map_values m = map snd m"

definition map_keys :: "('k \<times> 'v) list \<Rightarrow> 'k set" where
  "map_keys m = fst ` set m"

subsection \<open>The data model\<close>

record Player =
  id' :: string
  name :: string
  connected :: bool

record Vote =
  playerId :: string
  playerName :: string
  vote :: rat

datatype phase = waiting | voting | results

record GameState =
  players :: "(string \<times> Player) list"
  votes :: "(string \<times> Vote) list"
  gamePhase :: phase
  roomId :: string

text \<open>What a handler sends to the room, and the timer the second server sets.\<close>

datatype emitted =
    GameStateUpdate "Player list" phase "(string \<times> Vote) list option"
  | VotingStarted
  | VoteCountUpdate nat nat
  | StartCountdown
  | VotingComplete "Vote list" jsnumber
  | SetTimeout nat

definition gameState0 :: GameState where
  "gameState0 = \<lparr>players = [], votes = [], gamePhase = waiting, roomId = ''main-room''\<rparr>"

definition broadcastGameState :: "GameState \<Rightarrow> emitted" where
  "broadcastGameState s =
     GameStateUpdate (map_values (players s)) (gamePhase s)
       (if gamePhase s = results then Some (votes s) else None)"

subsection \<open>The handlers both servers share\<close>

definition join_game :: "string \<Rightarrow> jsvalue \<Rightarrow> GameState \<Rightarrow> GameState \<times> emitted list" where
  "join_game socket_id pname s =
     (if falsy pname \<or> typeof pname \<noteq> ''string'' then (s, [])
      else case pname of
        JSString n \<Rightarrow>
          (let player = \<lparr>id' = socket_id, name = trim n, connected = True\<rparr>;
               s' = s\<lparr>players := map_set (players s) socket_id player\<rparr>
           in (s', [broadcastGameState s']))
      | _ \<Rightarrow> (s, []))"

definition next_round :: "GameState \<Rightarrow> GameState \<times> emitted list" where
  "next_round s =
     (let s' = s\<lparr>gamePhase := waiting, votes := []\<rparr>
      in (s', [broadcastGameState s']))"

definition disconnect :: "string \<Rightarrow> GameState \<Rightarrow> GameState \<times> emitted list" where
  "disconnect socket_id s =
     (if map_has (players s) socket_id then
        (let s' = s\<lparr>players := map_delete (players s) socket_id,
                     votes := map_delete (votes s) socket_id\<rparr>
         in (s', [broadcastGameState s']))
      else (s, []))"

subsection \<open>The result of a round\<close>

text \<open>
  \<open>Math.round\<close> rounds to the nearest integer, a tie towards \<open>+\<infinity>\<close>.  With no votes
  the quotient is \<open>0 / 0\<close>, which is \<open>NaN\<close>, and stays \<open>NaN\<close> to the end.
\<close>

definition math_round :: "rat \<Rightarrow> int" where
  "math_round x = \<lfloor>x + 1 / 2\<rfloor>"

definition average_of :: "Vote list \<Rightarrow> jsnumber" where
  "average_of vs =
     (let sum = foldl (\<lambda>acc v. acc + vote v) 0 vs
      in if length vs = 0 then NaN
         else Num (of_int (math_round ((sum / of_nat (length vs)) * 10)) / 10))"

definition voting_result :: "GameState \<Rightarrow> emitted" where
  "voting_result s =
     (let vs = map_values (votes s) in VotingComplete vs (average_of vs))"

subsection \<open>The deck guard of \<open>submit-vote\<close>\<close>

text \<open>
  \<open>typeof vote !== 'number' || !deck.includes(vote)\<close> rejects the payload; what passes
  is a finite number of the deck, returned here.
\<close>

definition deck1 :: "rat list" where
  "deck1 = [1, 2, 3, 5, 10]"

definition deck2 :: "rat list" where
  "deck2 = [1, 2, 3, 5, 8, 13, 21, 34, 55, 89]"

fun array_includes :: "rat list \<Rightarrow> jsnumber \<Rightarrow> bool" where
  "array_includes deck (Num q) = (q \<in> set deck)"
| "array_includes deck n = False"

definition deck_guard :: "rat list \<Rightarrow> jsvalue \<Rightarrow> rat option" where
  "deck_guard deck v =
     (if typeof v \<noteq> ''number'' then None
      else case v of
        JSNumber (Num q) \<Rightarrow> (if \<not> array_includes deck (Num q) then None else Some q)
      | _ \<Rightarrow> None)"

text \<open>The part of \<open>submit-vote\<close> both servers share: the vote is stored and counted.\<close>

definition record_vote :: "string \<Rightarrow> Player \<Rightarrow> rat \<Rightarrow> GameState \<Rightarrow> GameState" where
  "record_vote socket_id player q s =
     s\<lparr>votes := map_set (votes s) socket_id
         \<lparr>playerId = socket_id, playerName = name player, vote = q\<rparr>\<rparr>"

definition voteCountUpdate :: "GameState \<Rightarrow> emitted" where
  "voteCountUpdate s = VoteCountUpdate (map_size (votes s)) (map_size (players s))"

subsection \<open>The first server: two players to start, the result at once\<close>

definition start_voting1 :: "GameState \<Rightarrow> GameState \<times> emitted list" where
  "start_voting1 s =
     (if map_size (players s) \<ge> 2 then
        (let s' = s\<lparr>gamePhase := voting, votes := []\<rparr>
         in (s', [VotingStarted, broadcastGameState s']))
      else (s, []))"

definition submit_vote1 :: "string \<Rightarrow> jsvalue \<Rightarrow> GameState \<Rightarrow> GameState \<times> emitted list" where
  "submit_vote1 socket_id v s =
     (case deck_guard deck1 v of
        None \<Rightarrow> (s, [])
      | Some q \<Rightarrow>
          if gamePhase s = voting \<and> map_has (players s) socket_id then
            (case map_get (players s) socket_id of
               None \<Rightarrow> (s, [])
             | Some player \<Rightarrow>
                 (let s1 = record_vote socket_id player q s in
                  if map_size (votes s1) = map_size (players s1) then
                    (let s2 = s1\<lparr>gamePhase := results\<rparr>
                     in (s2, [voteCountUpdate s1, voting_result s2]))
                  else (s1, [voteCountUpdate s1])))
          else (s, []))"

subsection \<open>The second server: no minimum, the result after the countdown\<close>

definition start_voting2 :: "GameState \<Rightarrow> GameState \<times> emitted list" where
  "start_voting2 s =
     (let s' = s\<lparr>gamePhase := voting, votes := []\<rparr>
      in (s', [VotingStarted, broadcastGameState s']))"

definition submit_vote2 :: "string \<Rightarrow> jsvalue \<Rightarrow> GameState \<Rightarrow> GameState \<times> emitted list" where
  "submit_vote2 socket_id v s =
     (case deck_guard deck2 v of
        None \<Rightarrow> (s, [])
      | Some q \<Rightarrow>
          if gamePhase s = voting \<and> map_has (players s) socket_id then
            (case map_get (players s) socket_id of
               None \<Rightarrow> (s, [])
             | Some player \<Rightarrow>
                 (let s1 = record_vote socket_id player q s in
                  if map_size (votes s1) = map_size (players s1) then
                    (s1, [voteCountUpdate s1, StartCountdown, SetTimeout 3000])
                  else (s1, [voteCountUpdate s1])))
          else (s, []))"

text \<open>The callback given to \<open>setTimeout\<close>: it reads the room as it is when it runs.\<close>

definition reveal :: "GameState \<Rightarrow> GameState \<times> emitted list" where
  "reveal s =
     (let s' = s\<lparr>gamePhase := results\<rparr>
      in (s', [voting_result s']))"

subsection \<open>Operations and runs\<close>

text \<open>
  An operation is an event of one connection, named by its \<open>socket.id\<close>.  On the second
  server the event loop also runs a due \<open>reveal\<close> callback; \<open>timers\<close> counts the
  callbacks that are set and have not run.
\<close>

datatype op =
    Join string jsvalue
  | StartVoting string
  | SubmitVote string jsvalue
  | NextRound string
  | Leave string

fun step1 :: "op \<Rightarrow> GameState \<Rightarrow> GameState \<times> emitted list" where
  "step1 (Join c n) s = join_game c n s"
| "step1 (StartVoting c) s = start_voting1 s"
| "step1 (SubmitVote c v) s = submit_vote1 c v s"
| "step1 (NextRound c) s = next_round s"
| "step1 (Leave c) s = disconnect c s"

fun handle2 :: "op \<Rightarrow> GameState \<Rightarrow> GameState \<times> emitted list" where
  "handle2 (Join c n) s = join_game c n s"
| "handle2 (StartVoting c) s = start_voting2 s"
| "handle2 (SubmitVote c v) s = submit_vote2 c v s"
| "handle2 (NextRound c) s = next_round s"
| "handle2 (Leave c) s = disconnect c s"

record Server2 =
  room :: GameState
  timers :: nat

datatype op2 = Client op | Timeout

definition timeouts_set :: "emitted list \<Rightarrow> nat" where
  "timeouts_set evs = length (filter (\<lambda>e. case e of SetTimeout d \<Rightarrow> True | _ \<Rightarrow> False) evs)"

fun step2 :: "op2 \<Rightarrow> Server2 \<Rightarrow> Server2 \<times> emitted list" where
  "step2 (Client x) S =
     (let (s', evs) = handle2 x (room S)
      in (\<lparr>room = s', timers = timers S + timeouts_set evs\<rparr>, evs))"
| "step2 Timeout S =
     (if timers S = 0 then (S, [])
      else (let (s', evs) = reveal (room S)
            in (\<lparr>room = s', timers = timers S - 1\<rparr>, evs)))"

definition server0 :: Server2 where
  "server0 = \<lparr>room = gameState0, timers = 0\<rparr>"

fun run1 :: "op list \<Rightarrow> GameState \<Rightarrow> GameState" where
  "run1 [] s = s"
| "run1 (x # xs) s = run1 xs (fst (step1 x s))"

fun run2 :: "op2 list \<Rightarrow> Server2 \<Rightarrow> Server2" where
  "run2 [] S = S"
| "run2 (x # xs) S = run2 xs (fst (step2 x S))"

subsection \<open>The mean of the votes, in the words of the specification\<close>

definition mean_vote :: "Vote list \<Rightarrow> rat" where
  "mean_vote vs = sum_list (map vote vs) / of_nat (length vs)"

subsection \<open>Operations that leave the vote of a connection alone\<close>


subsection \<open>A room used in the examples\<close>

text \<open>Ann and Bob are in the room, the vote is open and Ann has voted 3.\<close>

definition ann :: Player where
  "ann = \<lparr>id' = ''a'', name = ''Ann'', connected = True\<rparr>"

definition bob :: Player where
  "bob = \<lparr>id' = ''b'', name = ''Bob'', connected = True\<rparr>"

definition ann_voted :: GameState where
  "ann_voted =
     \<lparr>players = [(''a'', ann), (''b'', bob)],
      votes = [(''a'', \<lparr>playerId = ''a'', playerName = ''Ann'', vote = 3\<rparr>)],
      gamePhase = voting, roomId = ''main-room''\<rparr>"

text \<open>The same room with a vote of 2, and a room of three players who have all voted.\<close>

definition ann_voted_two :: GameState where
  "ann_voted_two =
     \<lparr>players = [(''a'', ann), (''b'', bob)],
      votes = [(''a'', \<lparr>playerId = ''a'', playerName = ''Ann'', vote = 2\<rparr>)],
      gamePhase = voting, roomId = ''main-room''\<rparr>"

definition cy :: Player where
  "cy = \<lparr>id' = ''c'', name = ''Cy'', connected = True\<rparr>"

definition three_voted :: GameState where
  "three_voted =
     \<lparr>players = [(''a'', ann), (''b'', bob), (''c'', cy)],
      votes = [(''a'', \<lparr>playerId = ''a'', playerName = ''Ann'', vote = 3\<rparr>),
               (''b'', \<lparr>playerId = ''b'', playerName = ''Bob'', vote = 5\<rparr>),
               (''c'', \<lparr>playerId = ''c'', playerName = ''Cy'', vote = 8\<rparr>)],
      gamePhase = voting, roomId = ''main-room''\<rparr>"

subsection \<open>The invariant of the room\<close>

text \<open>Every vote belongs to a player who is in the room.\<close>

definition votes_of_players :: "GameState \<Rightarrow> bool" where
  "votes_of_players s = (map_keys (votes s) \<subseteq> map_keys (players s))"

section \<open>Properties\<close>

subsection \<open>The \<open>Map\<close> operations\<close>

lemma map_keys_Nil [simp]: "map_keys [] = {}"
  by (simp add: map_keys_def)

lemma map_keys_Cons [simp]: "map_keys ((k, v) # m) = insert k (map_keys m)"
  by (simp add: map_keys_def)

lemma map_has_keys: "map_has m k \<longleftrightarrow> k \<in> map_keys m"
  by (induction m) auto

lemma map_keys_set: "map_keys (map_set m k v) = insert k (map_keys m)"
proof (induction m)
  case Nil
  show ?case by simp
next
  case (Cons a m)
  obtain k' v' where a: "a = (k', v')" by (cases a)
  show ?case
  proof (cases "k' = k")
    case True
    with a show ?thesis by simp
  next
    case False
    with a Cons show ?thesis by (simp add: insert_commute)
  qed
qed

lemma map_keys_delete: "map_keys (map_delete m k) = map_keys m - {k}"
proof (induction m)
  case Nil
  show ?case by simp
next
  case (Cons a m)
  obtain k' v' where a: "a = (k', v')" by (cases a)
  show ?case
  proof (cases "k' = k")
    case True
    with a Cons show ?thesis by simp
  next
    case False
    with a Cons show ?thesis by (simp add: insert_Diff_if)
  qed
qed

lemma map_size_set_present: "map_has m k \<Longrightarrow> map_size (map_set m k v) = map_size m"
  by (induction m) (auto simp: map_size_def)


lemma map_get_set_same: "map_get (map_set m k v) k = Some v"
  by (induction m) auto



lemma map_has_get: "map_has m k \<Longrightarrow> \<exists>v. map_get m k = Some v"
  by (induction m) auto

lemma map_get_has: "map_get m k = Some v \<Longrightarrow> map_has m k"
  by (induction m) (auto split: if_splits)


lemma map_has_size_pos: "map_has m k \<Longrightarrow> 0 < map_size m"
  by (cases m) (simp_all add: map_size_def)

subsection \<open>What each handler leaves alone\<close>

lemma join_game_votes: "votes (fst (join_game c n s)) = votes s"
  by (cases n) (simp_all add: join_game_def Let_def)

lemma join_game_phase: "gamePhase (fst (join_game c n s)) = gamePhase s"
  by (cases n) (simp_all add: join_game_def Let_def)

lemma join_game_players:
  "map_keys (players s) \<subseteq> map_keys (players (fst (join_game c n s)))"
  by (cases n) (auto simp: join_game_def Let_def map_keys_set)

lemma join_game_rejects:
  "falsy n \<or> typeof n \<noteq> ''string'' \<Longrightarrow> join_game c n s = (s, [])"
  by (simp add: join_game_def)

lemma disconnect_phase: "gamePhase (fst (disconnect d s)) = gamePhase s"
  by (simp add: disconnect_def Let_def)

lemma disconnect_emits:
  "snd (disconnect d s) = [] \<or> snd (disconnect d s) = [broadcastGameState (fst (disconnect d s))]"
  by (simp add: disconnect_def Let_def)


lemma record_vote_fields:
  "players (record_vote c p q s) = players s"
  "gamePhase (record_vote c p q s) = gamePhase s"
  "votes (record_vote c p q s) = map_set (votes s) c \<lparr>playerId = c, playerName = name p, vote = q\<rparr>"
  by (simp_all add: record_vote_def)

lemma deck_guard_Num: "deck_guard deck (JSNumber (Num q)) = (if q \<in> set deck then Some q else None)"
  by (simp add: deck_guard_def)

lemma deck_guard_None:
  assumes "\<nexists>q. q \<in> set deck \<and> v = JSNumber (Num q)"
  shows "deck_guard deck v = None"
proof (cases v)
  case (JSNumber n)
  show ?thesis
  proof (cases n)
    case (Num q)
    with JSNumber assms have "q \<notin> set deck" by blast
    with JSNumber Num show ?thesis by (simp add: deck_guard_def)
  qed (simp_all add: JSNumber deck_guard_def)
qed (simp_all add: deck_guard_def)

text \<open>The two \<open>submit-vote\<close> handlers, for a vote that passes the three guards.\<close>

lemma submit_vote1_valid:
  assumes "gamePhase s = voting" and "map_get (players s) c = Some p" and "q \<in> set deck1"
  shows "submit_vote1 c (JSNumber (Num q)) s =
           (let s1 = record_vote c p q s in
            if map_size (votes s1) = map_size (players s) then
              (s1\<lparr>gamePhase := results\<rparr>,
               [voteCountUpdate s1, voting_result (s1\<lparr>gamePhase := results\<rparr>)])
            else (s1, [voteCountUpdate s1]))"
proof -
  from assms(2) have "map_has (players s) c"
    by (rule map_get_has)
  with assms show ?thesis
    by (simp add: submit_vote1_def deck_guard_Num Let_def record_vote_fields)
qed

lemma submit_vote2_valid:
  assumes "gamePhase s = voting" and "map_get (players s) c = Some p" and "q \<in> set deck2"
  shows "submit_vote2 c (JSNumber (Num q)) s =
           (let s1 = record_vote c p q s in
            if map_size (votes s1) = map_size (players s) then
              (s1, [voteCountUpdate s1, StartCountdown, SetTimeout 3000])
            else (s1, [voteCountUpdate s1]))"
proof -
  from assms(2) have "map_has (players s) c"
    by (rule map_get_has)
  with assms show ?thesis
    by (simp add: submit_vote2_def deck_guard_Num Let_def record_vote_fields)
qed

lemma submit_vote1_phase:
  "gamePhase (fst (submit_vote1 c v s)) = gamePhase s \<or>
   gamePhase s = voting \<and> gamePhase (fst (submit_vote1 c v s)) = results"
  by (simp add: submit_vote1_def Let_def record_vote_fields split: option.split)

lemma submit_vote2_phase: "gamePhase (fst (submit_vote2 c v s)) = gamePhase s"
  by (simp add: submit_vote2_def Let_def record_vote_fields split: option.split)


subsection \<open>Every handler keeps the invariant\<close>

lemma inv_join_game: "votes_of_players s \<Longrightarrow> votes_of_players (fst (join_game c n s))"
  using join_game_players [of s c n] by (auto simp: votes_of_players_def join_game_votes)

lemma inv_next_round: "votes_of_players (fst (next_round s))"
  by (simp add: votes_of_players_def next_round_def Let_def)

lemma inv_disconnect: "votes_of_players s \<Longrightarrow> votes_of_players (fst (disconnect c s))"
  by (auto simp: votes_of_players_def disconnect_def Let_def map_keys_delete)

lemma inv_start_voting1: "votes_of_players s \<Longrightarrow> votes_of_players (fst (start_voting1 s))"
  by (auto simp: votes_of_players_def start_voting1_def Let_def)

lemma inv_start_voting2: "votes_of_players (fst (start_voting2 s))"
  by (simp add: votes_of_players_def start_voting2_def Let_def)

lemma inv_record_vote:
  "votes_of_players s \<Longrightarrow> map_has (players s) c \<Longrightarrow> votes_of_players (record_vote c p q s)"
  by (auto simp: votes_of_players_def record_vote_def map_keys_set map_has_keys)

lemma inv_submit_vote1: "votes_of_players s \<Longrightarrow> votes_of_players (fst (submit_vote1 c v s))"
  using inv_record_vote [of s c]
  by (auto simp: submit_vote1_def Let_def votes_of_players_def split: option.splits)

lemma inv_submit_vote2: "votes_of_players s \<Longrightarrow> votes_of_players (fst (submit_vote2 c v s))"
  using inv_record_vote [of s c]
  by (auto simp: submit_vote2_def Let_def votes_of_players_def split: option.splits)

lemma inv_reveal: "votes_of_players s \<Longrightarrow> votes_of_players (fst (reveal s))"
  by (simp add: votes_of_players_def reveal_def Let_def)

lemma inv_step1: "votes_of_players s \<Longrightarrow> votes_of_players (fst (step1 x s))"
  by (cases x) (simp_all add: inv_join_game inv_start_voting1 inv_submit_vote1 inv_next_round inv_disconnect)

lemma inv_handle2: "votes_of_players s \<Longrightarrow> votes_of_players (fst (handle2 x s))"
  by (cases x) (simp_all add: inv_join_game inv_start_voting2 inv_submit_vote2 inv_next_round inv_disconnect)

lemma inv_step2: "votes_of_players (room S) \<Longrightarrow> votes_of_players (room (fst (step2 x S)))"
proof (cases x)
  case (Client y)
  assume "votes_of_players (room S)"
  then have "votes_of_players (fst (handle2 y (room S)))" by (rule inv_handle2)
  with Client show ?thesis by (simp add: split_beta Let_def)
next
  case Timeout
  assume "votes_of_players (room S)"
  then have "votes_of_players (fst (reveal (room S)))" by (rule inv_reveal)
  with Timeout \<open>votes_of_players (room S)\<close> show ?thesis by (simp add: split_beta Let_def)
qed

lemma inv_run1: "votes_of_players s \<Longrightarrow> votes_of_players (run1 xs s)"
  by (induction xs arbitrary: s) (simp_all add: inv_step1)

lemma inv_run2: "votes_of_players (room S) \<Longrightarrow> votes_of_players (room (run2 xs S))"
  by (induction xs arbitrary: S) (simp_all add: inv_step2)

lemma run1_append: "run1 (xs @ ys) s = run1 ys (run1 xs s)"
  by (induction xs arbitrary: s) simp_all

lemma run2_append: "run2 (xs @ ys) S = run2 ys (run2 xs S)"
  by (induction xs arbitrary: S) simp_all

lemma inv_gameState0: "votes_of_players gameState0"
  by (simp add: votes_of_players_def gameState0_def)

lemma disconnect_removes:
  "votes_of_players s \<Longrightarrow>
     \<not> map_has (players (fst (disconnect c s))) c \<and> \<not> map_has (votes (fst (disconnect c s))) c"
  by (auto simp: votes_of_players_def disconnect_def Let_def map_has_keys map_keys_delete)

subsection \<open>The example room is reached from the start\<close>

lemma ann_voted_reached:
  "run1 [Join ''a'' (JSString ''Ann''), Join ''b'' (JSString ''Bob''), StartVoting ''a'',
         SubmitVote ''a'' (JSNumber (Num 3))] gameState0 = ann_voted"
  by (simp add: gameState0_def ann_voted_def ann_def bob_def join_game_def start_voting1_def
      submit_vote1_def deck_guard_def deck1_def record_vote_def map_size_def Let_def
      trim_def is_white_space_def)

subsection \<open>Votes belong to players\<close>

text \<open>
  C1.  Whatever operations the room has handled since the server started, every key of the
  vote map is a key of the player map.  This holds on the first server and on the second
  one, where the reveal callback may run between the operations.  A connection that has
  just left is in neither map: \<open>disconnect\<close> deletes its vote with its membership.
\<close>

theorem votes_subset_players:
  "map_keys (votes (run1 xs gameState0)) \<subseteq> map_keys (players (run1 xs gameState0)) \<and>
   map_keys (votes (room (run2 ys server0))) \<subseteq> map_keys (players (room (run2 ys server0))) \<and>
   \<not> map_has (players (run1 (xs @ [Leave c]) gameState0)) c \<and>
   \<not> map_has (votes (run1 (xs @ [Leave c]) gameState0)) c \<and>
   \<not> map_has (players (room (run2 (ys @ [Client (Leave c)]) server0))) c \<and>
   \<not> map_has (votes (room (run2 (ys @ [Client (Leave c)]) server0))) c"
proof -
  have i1: "votes_of_players (run1 xs gameState0)"
    by (rule inv_run1 [OF inv_gameState0])
  have i2: "votes_of_players (room (run2 ys server0))"
    by (rule inv_run2) (simp add: server0_def inv_gameState0)
  have r1: "run1 (xs @ [Leave c]) gameState0 = fst (disconnect c (run1 xs gameState0))"
    by (simp add: run1_append)
  have r2: "room (run2 (ys @ [Client (Leave c)]) server0)
              = fst (disconnect c (room (run2 ys server0)))"
    by (simp add: run2_append split_beta)
  from i1 i2 disconnect_removes [OF i1, of c] disconnect_removes [OF i2, of c]
  show ?thesis
    unfolding r1 r2 by (simp add: votes_of_players_def)
qed

theorem votes_subset_players_witness:
  "map_keys (votes (run1 [Join ''a'' (JSString ''Ann''), Join ''b'' (JSString ''Bob''),
       StartVoting ''a'', SubmitVote ''a'' (JSNumber (Num 3))] gameState0)) = {''a''} \<and>
   map_keys (players (run1 [Join ''a'' (JSString ''Ann''), Join ''b'' (JSString ''Bob''),
       StartVoting ''a'', SubmitVote ''a'' (JSNumber (Num 3))] gameState0)) = {''a'', ''b''} \<and>
   \<not> map_has (votes (run1 ([Join ''a'' (JSString ''Ann''), Join ''b'' (JSString ''Bob''),
       StartVoting ''a'', SubmitVote ''a'' (JSNumber (Num 3))] @ [Leave ''a'']) gameState0)) ''a''"
  using votes_subset_players
    [of "[Join ''a'' (JSString ''Ann''), Join ''b'' (JSString ''Bob''),
          StartVoting ''a'', SubmitVote ''a'' (JSNumber (Num 3))]" "[]" "''a''"]
  by (simp add: gameState0_def join_game_def start_voting1_def submit_vote1_def
      deck_guard_def deck1_def record_vote_def map_size_def Let_def trim_def
      is_white_space_def)

subsection \<open>When a round completes\<close>

text \<open>
  C2.  Take a vote that passes the three guards of \<open>submit-vote\<close>: the phase is
  \<open>voting\<close>, the sender is a player and the value is in the deck.  It completes the round
  exactly when, with this vote stored, the vote map has as many entries as the player map
  and there is a player.  On the first server completing is done in the handler: the phase
  becomes \<open>results\<close> and \<open>voting-complete\<close> is sent; otherwise the phase stays
  \<open>voting\<close> and no \<open>voting-complete\<close> is sent.  On the second server completing is
  started in the handler: \<open>start-countdown\<close> is sent and the timer is set, whose callback
  makes the phase \<open>results\<close> and sends \<open>voting-complete\<close>.  \<open>disconnect\<close> never
  changes the phase, sends no \<open>voting-complete\<close> and sets no timer.
\<close>

theorem completion_iff_all_voted:
  assumes "gamePhase s = voting" and "map_has (players s) c"
    and "q1 \<in> set deck1" and "q2 \<in> set deck2"
  shows "let r1 = submit_vote1 c (JSNumber (Num q1)) s;
             r2 = submit_vote2 c (JSNumber (Num q2)) s;
             r3 = disconnect d s
         in ((gamePhase (fst r1) = results \<and> voting_result (fst r1) \<in> set (snd r1)) \<longleftrightarrow>
               (map_size (votes (fst r1)) = map_size (players (fst r1)) \<and>
                0 < map_size (players (fst r1)))) \<and>
            (gamePhase (fst r1) = results \<or>
               gamePhase (fst r1) = voting \<and> (\<forall>vs a. VotingComplete vs a \<notin> set (snd r1))) \<and>
            ((StartCountdown \<in> set (snd r2) \<and> SetTimeout 3000 \<in> set (snd r2)) \<longleftrightarrow>
               (map_size (votes (fst r2)) = map_size (players (fst r2)) \<and>
                0 < map_size (players (fst r2)))) \<and>
            reveal (fst r2) =
              ((fst r2)\<lparr>gamePhase := results\<rparr>, [voting_result ((fst r2)\<lparr>gamePhase := results\<rparr>)]) \<and>
            gamePhase (fst r3) = gamePhase s \<and>
            (\<forall>vs a. VotingComplete vs a \<notin> set (snd r3)) \<and>
            (\<forall>t. SetTimeout t \<notin> set (snd r3))"
proof -
  from map_has_get [OF assms(2)] obtain p where p: "map_get (players s) c = Some p" ..
  from assms(2) have pos: "0 < map_size (players s)"
    by (rule map_has_size_pos)
  note v1 = submit_vote1_valid [OF assms(1) p assms(3)]
  note v2 = submit_vote2_valid [OF assms(1) p assms(4)]
  have a: "(gamePhase (fst (submit_vote1 c (JSNumber (Num q1)) s)) = results \<and>
            voting_result (fst (submit_vote1 c (JSNumber (Num q1)) s))
              \<in> set (snd (submit_vote1 c (JSNumber (Num q1)) s))) \<longleftrightarrow>
           (map_size (votes (fst (submit_vote1 c (JSNumber (Num q1)) s)))
              = map_size (players (fst (submit_vote1 c (JSNumber (Num q1)) s))) \<and>
            0 < map_size (players (fst (submit_vote1 c (JSNumber (Num q1)) s))))"
    using assms(1) pos by (simp add: v1 Let_def record_vote_fields)
  have b: "gamePhase (fst (submit_vote1 c (JSNumber (Num q1)) s)) = results \<or>
           gamePhase (fst (submit_vote1 c (JSNumber (Num q1)) s)) = voting \<and>
           (\<forall>vs a. VotingComplete vs a \<notin> set (snd (submit_vote1 c (JSNumber (Num q1)) s)))"
    using assms(1) by (simp add: v1 Let_def record_vote_fields voteCountUpdate_def)
  have c: "(StartCountdown \<in> set (snd (submit_vote2 c (JSNumber (Num q2)) s)) \<and>
            SetTimeout 3000 \<in> set (snd (submit_vote2 c (JSNumber (Num q2)) s))) \<longleftrightarrow>
           (map_size (votes (fst (submit_vote2 c (JSNumber (Num q2)) s)))
              = map_size (players (fst (submit_vote2 c (JSNumber (Num q2)) s))) \<and>
            0 < map_size (players (fst (submit_vote2 c (JSNumber (Num q2)) s))))"
    using pos by (simp add: v2 Let_def record_vote_fields voteCountUpdate_def)
  have d: "gamePhase (fst (disconnect d s)) = gamePhase s"
    by (rule disconnect_phase)
  have e: "\<forall>vs a. VotingComplete vs a \<notin> set (snd (disconnect d s))"
    using disconnect_emits [of d s] by (auto simp: broadcastGameState_def)
  have f: "\<forall>t. SetTimeout t \<notin> set (snd (disconnect d s))"
    using disconnect_emits [of d s] by (auto simp: broadcastGameState_def)
  have r: "reveal (fst (submit_vote2 c (JSNumber (Num q2)) s)) =
             ((fst (submit_vote2 c (JSNumber (Num q2)) s))\<lparr>gamePhase := results\<rparr>,
              [voting_result ((fst (submit_vote2 c (JSNumber (Num q2)) s))\<lparr>gamePhase := results\<rparr>)])"
    by (simp add: reveal_def Let_def)
  show ?thesis
    unfolding Let_def by (intro conjI a b c d e f r)
qed

theorem completion_iff_all_voted_witness:
  "gamePhase ann_voted = voting \<and> map_has (players ann_voted) ''b'' \<and>
   5 \<in> set deck1 \<and> 5 \<in> set deck2 \<and>
   gamePhase (fst (submit_vote1 ''b'' (JSNumber (Num 5)) ann_voted)) = results \<and>
   snd (submit_vote1 ''b'' (JSNumber (Num 5)) ann_voted) =
     [VoteCountUpdate 2 2,
      VotingComplete [\<lparr>playerId = ''a'', playerName = ''Ann'', vote = 3\<rparr>,
                      \<lparr>playerId = ''b'', playerName = ''Bob'', vote = 5\<rparr>] (Num 4)] \<and>
   gamePhase (fst (submit_vote2 ''b'' (JSNumber (Num 5)) ann_voted)) = voting \<and>
   snd (submit_vote2 ''b'' (JSNumber (Num 5)) ann_voted) =
     [VoteCountUpdate 2 2, StartCountdown, SetTimeout 3000]"
  using completion_iff_all_voted [of ann_voted "''b''" 5 5 "''a''"]
  by (simp add: ann_voted_def ann_def bob_def deck1_def deck2_def submit_vote1_def
      submit_vote2_def deck_guard_def record_vote_def map_size_def map_values_def Let_def
      voteCountUpdate_def voting_result_def average_of_def math_round_def floor_eq_iff)

subsection \<open>The average\<close>

lemma foldl_vote_sum: "foldl (\<lambda>acc v. acc + vote v) a vs = a + sum_list (map vote vs)"
  by (induction vs arbitrary: a) simp_all

lemma average_of_mean:
  "vs \<noteq> [] \<Longrightarrow> average_of vs = Num (of_int (math_round (mean_vote vs * 10)) / 10)"
  by (simp add: average_of_def mean_vote_def foldl_vote_sum)

lemma map_set_not_Nil: "map_set m k v \<noteq> []"
  by (induction m k v rule: map_set.induct) simp_all

lemma map_values_Nil_iff: "map_values m = [] \<longleftrightarrow> m = []"
  by (simp add: map_values_def)

text \<open>The rounding itself, on any votes that are not empty.\<close>

lemma average_of_rounds:
  assumes "vs \<noteq> []"
  shows "\<exists>k::int. average_of vs = Num (of_int k / 10) \<and>
           of_int k / 10 - 1 / 20 \<le> mean_vote vs \<and> mean_vote vs < of_int k / 10 + 1 / 20"
proof -
  define k where "k = math_round (mean_vote vs * 10)"
  have lo: "of_int k \<le> mean_vote vs * 10 + 1 / 2"
    unfolding k_def math_round_def by (rule of_int_floor_le)
  have hi: "mean_vote vs * 10 + 1 / 2 < of_int k + 1"
    unfolding k_def math_round_def by linarith
  have "average_of vs = Num (of_int k / 10)"
    unfolding k_def by (rule average_of_mean [OF assms])
  moreover from lo have "of_int k / 10 - 1 / 20 \<le> mean_vote vs" by simp
  moreover from hi have "mean_vote vs < of_int k / 10 + 1 / 20" by simp
  ultimately show ?thesis by blast
qed

lemma three_voted_reached:
  "run2 [Client (Join ''a'' (JSString ''Ann'')), Client (Join ''b'' (JSString ''Bob'')),
         Client (Join ''c'' (JSString ''Cy'')), Client (StartVoting ''a''),
         Client (SubmitVote ''a'' (JSNumber (Num 3))), Client (SubmitVote ''b'' (JSNumber (Num 5))),
         Client (SubmitVote ''c'' (JSNumber (Num 8)))] server0
     = \<lparr>room = three_voted, timers = 1\<rparr>"
  by (simp add: server0_def gameState0_def three_voted_def ann_def bob_def cy_def join_game_def
      start_voting2_def submit_vote2_def deck_guard_def deck2_def record_vote_def map_size_def
      Let_def trim_def is_white_space_def timeouts_set_def voteCountUpdate_def
      broadcastGameState_def)

text \<open>
  C3.  The average in the \<open>voting-complete\<close> payload is the mean of the votes in that
  payload, rounded to one decimal with a tie upwards.  On the first server the vote that
  completes the round sends the progress and then \<open>voting-complete\<close> with the votes
  stored in the room, which are not empty, and with an average \<open>k / 10\<close> such that
  \<open>k / 10 - 1 / 20 \<le> m < k / 10 + 1 / 20\<close>, where \<open>m\<close> is the sum of the vote values of
  the payload divided by their number.  On the second server the callback, run on a room
  whose votes are not empty, sends \<open>voting-complete\<close> with the votes of the room and an
  average of the same kind.  The votes 3, 5, 8 give 5.3 and the votes 2, 2 give 2.
\<close>

theorem average_rounds_half_up:
  assumes "gamePhase s = voting" and "map_has (players s) c" and "q \<in> set deck1"
    and "map_size (votes (fst (submit_vote1 c (JSNumber (Num q)) s))) = map_size (players s)"
    and "votes t \<noteq> []"
  shows "\<exists>k1 k2 :: int.
           snd (submit_vote1 c (JSNumber (Num q)) s) =
             [VoteCountUpdate (map_size (players s)) (map_size (players s)),
              VotingComplete (map_values (votes (fst (submit_vote1 c (JSNumber (Num q)) s))))
                (Num (of_int k1 / 10))] \<and>
           map_values (votes (fst (submit_vote1 c (JSNumber (Num q)) s))) \<noteq> [] \<and>
           of_int k1 / 10 - 1 / 20
             \<le> mean_vote (map_values (votes (fst (submit_vote1 c (JSNumber (Num q)) s)))) \<and>
           mean_vote (map_values (votes (fst (submit_vote1 c (JSNumber (Num q)) s))))
             < of_int k1 / 10 + 1 / 20 \<and>
           snd (reveal t) = [VotingComplete (map_values (votes t)) (Num (of_int k2 / 10))] \<and>
           of_int k2 / 10 - 1 / 20 \<le> mean_vote (map_values (votes t)) \<and>
           mean_vote (map_values (votes t)) < of_int k2 / 10 + 1 / 20"
proof -
  from map_has_get [OF assms(2)] obtain p where p: "map_get (players s) c = Some p" ..
  note v1 = submit_vote1_valid [OF assms(1) p assms(3)]
  define s1 where "s1 = record_vote c p q s"
  define vs1 where "vs1 = map_values (votes s1)"
  define vs2 where "vs2 = map_values (votes t)"
  have full: "map_size (votes s1) = map_size (players s)"
    using assms(4) unfolding s1_def by (simp add: v1 Let_def split: if_splits)
  have res: "submit_vote1 c (JSNumber (Num q)) s =
               (s1\<lparr>gamePhase := results\<rparr>,
                [voteCountUpdate s1, voting_result (s1\<lparr>gamePhase := results\<rparr>)])"
    using full unfolding s1_def by (simp add: v1 Let_def)
  have ne1: "vs1 \<noteq> []"
    by (simp add: vs1_def s1_def map_values_Nil_iff record_vote_fields map_set_not_Nil)
  have ne2: "vs2 \<noteq> []"
    using assms(5) by (simp add: vs2_def map_values_Nil_iff)
  from average_of_rounds [OF ne1] obtain k1 :: int where
    k1: "average_of vs1 = Num (of_int k1 / 10)"
      "of_int k1 / 10 - 1 / 20 \<le> mean_vote vs1" "mean_vote vs1 < of_int k1 / 10 + 1 / 20"
    by blast
  from average_of_rounds [OF ne2] obtain k2 :: int where
    k2: "average_of vs2 = Num (of_int k2 / 10)"
      "of_int k2 / 10 - 1 / 20 \<le> mean_vote vs2" "mean_vote vs2 < of_int k2 / 10 + 1 / 20"
    by blast
  have ev1: "snd (submit_vote1 c (JSNumber (Num q)) s) =
               [VoteCountUpdate (map_size (players s)) (map_size (players s)),
                VotingComplete vs1 (Num (of_int k1 / 10))]"
    using full k1(1)
    by (simp add: res voteCountUpdate_def voting_result_def vs1_def s1_def record_vote_fields)
  have st1: "votes (fst (submit_vote1 c (JSNumber (Num q)) s)) = votes s1"
    by (simp add: res)
  have ev2: "snd (reveal t) = [VotingComplete vs2 (Num (of_int k2 / 10))]"
    using k2(1) by (simp add: reveal_def voting_result_def vs2_def Let_def)
  have "snd (submit_vote1 c (JSNumber (Num q)) s) =
             [VoteCountUpdate (map_size (players s)) (map_size (players s)),
              VotingComplete (map_values (votes (fst (submit_vote1 c (JSNumber (Num q)) s))))
                (Num (of_int k1 / 10))] \<and>
           map_values (votes (fst (submit_vote1 c (JSNumber (Num q)) s))) \<noteq> [] \<and>
           of_int k1 / 10 - 1 / 20
             \<le> mean_vote (map_values (votes (fst (submit_vote1 c (JSNumber (Num q)) s)))) \<and>
           mean_vote (map_values (votes (fst (submit_vote1 c (JSNumber (Num q)) s))))
             < of_int k1 / 10 + 1 / 20 \<and>
           snd (reveal t) = [VotingComplete (map_values (votes t)) (Num (of_int k2 / 10))] \<and>
           of_int k2 / 10 - 1 / 20 \<le> mean_vote (map_values (votes t)) \<and>
           mean_vote (map_values (votes t)) < of_int k2 / 10 + 1 / 20"
    unfolding st1 using ev1 ne1 k1(2,3) ev2 k2(2,3) unfolding vs1_def vs2_def st1
    by (intro conjI)
  then show ?thesis by blast
qed

theorem average_rounds_half_up_witness:
  "gamePhase ann_voted_two = voting \<and> map_has (players ann_voted_two) ''b'' \<and>
   2 \<in> set deck1 \<and> votes three_voted \<noteq> [] \<and>
   snd (submit_vote1 ''b'' (JSNumber (Num 2)) ann_voted_two) =
     [VoteCountUpdate 2 2,
      VotingComplete [\<lparr>playerId = ''a'', playerName = ''Ann'', vote = 2\<rparr>,
                      \<lparr>playerId = ''b'', playerName = ''Bob'', vote = 2\<rparr>] (Num 2)] \<and>
   snd (reveal three_voted) =
     [VotingComplete [\<lparr>playerId = ''a'', playerName = ''Ann'', vote = 3\<rparr>,
                      \<lparr>playerId = ''b'', playerName = ''Bob'', vote = 5\<rparr>,
                      \<lparr>playerId = ''c'', playerName = ''Cy'', vote = 8\<rparr>] (Num (53 / 10))]"
  using average_rounds_half_up [of ann_voted_two "''b''" 2 three_voted]
  by (simp add: ann_voted_two_def three_voted_def ann_def bob_def cy_def deck1_def
      submit_vote1_def reveal_def deck_guard_def record_vote_def map_size_def map_values_def
      Let_def voteCountUpdate_def voting_result_def average_of_def math_round_def floor_eq_iff)

subsection \<open>Votes outside the deck\<close>

text \<open>
  C4.  A \<open>submit-vote\<close> whose payload is not a number of the deck (a number outside the
  deck, \<open>NaN\<close>, or no number at all) leaves the room as it was and sends nothing, on both
  servers: players, votes, the count of votes and the phase are unchanged.
\<close>

theorem off_deck_vote_ignored:
  "((\<nexists>q. q \<in> set deck1 \<and> v = JSNumber (Num q)) \<longrightarrow> submit_vote1 c v s = (s, [])) \<and>
   ((\<nexists>q. q \<in> set deck2 \<and> v = JSNumber (Num q)) \<longrightarrow> submit_vote2 c v s = (s, []))"
proof (intro conjI impI)
  assume "\<nexists>q. q \<in> set deck1 \<and> v = JSNumber (Num q)"
  then have "deck_guard deck1 v = None" by (rule deck_guard_None)
  then show "submit_vote1 c v s = (s, [])" by (simp add: submit_vote1_def)
next
  assume "\<nexists>q. q \<in> set deck2 \<and> v = JSNumber (Num q)"
  then have "deck_guard deck2 v = None" by (rule deck_guard_None)
  then show "submit_vote2 c v s = (s, [])" by (simp add: submit_vote2_def)
qed

theorem off_deck_vote_ignored_witness:
  "submit_vote1 ''b'' (JSNumber (Num 4)) ann_voted = (ann_voted, []) \<and>
   submit_vote2 ''b'' (JSNumber (Num 4)) ann_voted = (ann_voted, []) \<and>
   submit_vote1 ''b'' (JSString ''5'') ann_voted = (ann_voted, []) \<and>
   submit_vote2 ''b'' (JSNumber NaN) ann_voted = (ann_voted, [])"
  using off_deck_vote_ignored [of "JSNumber (Num 4)" "''b''" ann_voted]
    off_deck_vote_ignored [of "JSString ''5''" "''b''" ann_voted]
    off_deck_vote_ignored [of "JSNumber NaN" "''b''" ann_voted]
  by (simp add: deck1_def deck2_def)

subsection \<open>Names of white space\<close>

text \<open>
  C5.  \<open>join-game\<close> tests the name before it trims it.  The guard rejects the empty
  string, but a name of two spaces passes the guard, is trimmed to the empty string and
  enters the room as a player with the empty name, and the new room is sent to everybody.
  So a name that is empty after trimming is not ignored.
\<close>

theorem join_whitespace_name_enters:
  "join_game ''a'' (JSString ''  '') gameState0 =
     (gameState0\<lparr>players := [(''a'', \<lparr>id' = ''a'', name = [], connected = True\<rparr>)]\<rparr>,
      [GameStateUpdate [\<lparr>id' = ''a'', name = [], connected = True\<rparr>] waiting None])"
  by (simp add: join_game_def gameState0_def Let_def trim_def is_white_space_def
      broadcastGameState_def map_values_def)

subsection \<open>The edges of the phase\<close>

lemma phase_cases: "p = waiting \<or> p = voting \<or> p = results"
  by (cases p) simp_all

lemma step1_edge:
  "gamePhase (fst (step1 x s)) = gamePhase s \<or>
   (\<exists>c. x = StartVoting c) \<and> 2 \<le> map_size (players s) \<and>
     (gamePhase s, gamePhase (fst (step1 x s))) \<in> {(waiting, voting), (results, voting)} \<or>
   (\<exists>c v. x = SubmitVote c v) \<and>
     (gamePhase s, gamePhase (fst (step1 x s))) = (voting, results) \<or>
   (\<exists>c. x = NextRound c) \<and>
     (gamePhase s, gamePhase (fst (step1 x s))) \<in> {(voting, waiting), (results, waiting)}"
proof (cases x)
  case (Join c n)
  then show ?thesis by (simp add: join_game_phase)
next
  case (StartVoting c)
  then show ?thesis
    using phase_cases [of "gamePhase s"] by (auto simp: start_voting1_def Let_def)
next
  case (SubmitVote c v)
  then show ?thesis
    using submit_vote1_phase [of c v s] by auto
next
  case (NextRound c)
  then show ?thesis
    using phase_cases [of "gamePhase s"] by (auto simp: next_round_def Let_def)
next
  case (Leave c)
  then show ?thesis by (simp add: disconnect_phase)
qed

lemma step2_edge:
  "gamePhase (room (fst (step2 y S))) = gamePhase (room S) \<or>
   (\<exists>c. y = Client (StartVoting c)) \<and>
     (gamePhase (room S), gamePhase (room (fst (step2 y S))))
       \<in> {(waiting, voting), (results, voting)} \<or>
   (\<exists>c. y = Client (NextRound c)) \<and>
     (gamePhase (room S), gamePhase (room (fst (step2 y S))))
       \<in> {(voting, waiting), (results, waiting)} \<or>
   y = Timeout \<and> 0 < timers S \<and>
     (gamePhase (room S), gamePhase (room (fst (step2 y S))))
       \<in> {(voting, results), (waiting, results)}"
proof (cases y)
  case (Client x)
  show ?thesis
  proof (cases x)
    case (Join c n)
    with Client show ?thesis by (simp add: split_beta join_game_phase)
  next
    case (StartVoting c)
    with Client show ?thesis
      using phase_cases [of "gamePhase (room S)"]
      by (auto simp: split_beta start_voting2_def Let_def)
  next
    case (SubmitVote c v)
    with Client show ?thesis by (simp add: split_beta submit_vote2_phase)
  next
    case (NextRound c)
    with Client show ?thesis
      using phase_cases [of "gamePhase (room S)"]
      by (auto simp: split_beta next_round_def Let_def)
  next
    case (Leave c)
    with Client show ?thesis by (simp add: split_beta disconnect_phase)
  qed
next
  case Timeout
  then show ?thesis
    using phase_cases [of "gamePhase (room S)"]
    by (auto simp: split_beta reveal_def Let_def)
qed

text \<open>Runs from the start, and the phase they end in.\<close>

lemma first_server_runs:
  "gamePhase (run1 [Join ''a'' (JSString ''Ann''), Join ''b'' (JSString ''Bob'')] gameState0)
     = waiting"
  "gamePhase (run1 [Join ''a'' (JSString ''Ann''), Join ''b'' (JSString ''Bob''),
     StartVoting ''a''] gameState0) = voting"
  "gamePhase (run1 [Join ''a'' (JSString ''Ann''), Join ''b'' (JSString ''Bob''),
     StartVoting ''a'', SubmitVote ''a'' (JSNumber (Num 3))] gameState0) = voting"
  "gamePhase (run1 [Join ''a'' (JSString ''Ann''), Join ''b'' (JSString ''Bob''),
     StartVoting ''a'', SubmitVote ''a'' (JSNumber (Num 3)),
     SubmitVote ''b'' (JSNumber (Num 5))] gameState0) = results"
  "gamePhase (run1 [Join ''a'' (JSString ''Ann''), Join ''b'' (JSString ''Bob''),
     StartVoting ''a'', NextRound ''b''] gameState0) = waiting"
  "gamePhase (run1 [Join ''a'' (JSString ''Ann''), Join ''b'' (JSString ''Bob''),
     StartVoting ''a'', SubmitVote ''a'' (JSNumber (Num 3)),
     SubmitVote ''b'' (JSNumber (Num 5)), NextRound ''a''] gameState0) = waiting"
  "gamePhase (run1 [Join ''a'' (JSString ''Ann''), Join ''b'' (JSString ''Bob''),
     StartVoting ''a'', SubmitVote ''a'' (JSNumber (Num 3)),
     SubmitVote ''b'' (JSNumber (Num 5)), StartVoting ''b''] gameState0) = voting"
  by (simp_all add: gameState0_def join_game_def start_voting1_def submit_vote1_def
      next_round_def deck_guard_def deck1_def record_vote_def map_size_def Let_def)

lemma second_server_runs:
  "gamePhase (room (run2 [Client (Join ''a'' (JSString ''Ann''))] server0)) = waiting"
  "gamePhase (room (run2 [Client (Join ''a'' (JSString ''Ann'')), Client (StartVoting ''a'')]
     server0)) = voting"
  "gamePhase (room (run2 [Client (Join ''a'' (JSString ''Ann'')), Client (StartVoting ''a''),
     Client (NextRound ''a'')] server0)) = waiting"
  "gamePhase (room (run2 [Client (Join ''a'' (JSString ''Ann'')), Client (StartVoting ''a''),
     Client (SubmitVote ''a'' (JSNumber (Num 3)))] server0)) = voting"
  "gamePhase (room (run2 [Client (Join ''a'' (JSString ''Ann'')), Client (StartVoting ''a''),
     Client (SubmitVote ''a'' (JSNumber (Num 3))), Timeout] server0)) = results"
  "gamePhase (room (run2 [Client (Join ''a'' (JSString ''Ann'')), Client (StartVoting ''a''),
     Client (SubmitVote ''a'' (JSNumber (Num 3))), Timeout, Client (NextRound ''a'')]
     server0)) = waiting"
  "gamePhase (room (run2 [Client (Join ''a'' (JSString ''Ann'')), Client (StartVoting ''a''),
     Client (SubmitVote ''a'' (JSNumber (Num 3))), Timeout, Client (StartVoting ''a'')]
     server0)) = voting"
  "gamePhase (room (run2 [Client (Join ''a'' (JSString ''Ann'')), Client (StartVoting ''a''),
     Client (SubmitVote ''a'' (JSNumber (Num 3))), Client (NextRound ''a'')] server0)) = waiting"
  "gamePhase (room (run2 [Client (Join ''a'' (JSString ''Ann'')), Client (StartVoting ''a''),
     Client (SubmitVote ''a'' (JSNumber (Num 3))), Client (NextRound ''a''), Timeout]
     server0)) = results"
  by (simp_all add: server0_def gameState0_def join_game_def start_voting2_def submit_vote2_def
      next_round_def reveal_def deck_guard_def deck2_def record_vote_def map_size_def Let_def
      timeouts_set_def voteCountUpdate_def broadcastGameState_def voting_result_def)

lemma run1_snoc: "run1 (xs @ [x]) s = fst (step1 x (run1 xs s))"
  by (simp add: run1_append)

lemma run2_snoc: "run2 (xs @ [x]) S = fst (step2 x (run2 xs S))"
  by (simp add: run2_append)

lemma edge1_taken:
  assumes "gamePhase (run1 xs gameState0) = p" and "gamePhase (run1 (xs @ [x]) gameState0) = p'"
  shows "\<exists>xs x. (p, p') = (gamePhase (run1 xs gameState0),
                            gamePhase (fst (step1 x (run1 xs gameState0))))"
  using assms unfolding run1_snoc by (intro exI [of _ xs] exI [of _ x]) simp

lemma edge2_taken:
  assumes "gamePhase (room (run2 ys server0)) = p"
    and "gamePhase (room (run2 (ys @ [y]) server0)) = p'"
  shows "\<exists>ys y. (p, p') = (gamePhase (room (run2 ys server0)),
                            gamePhase (room (fst (step2 y (run2 ys server0)))))"
  using assms unfolding run2_snoc by (intro exI [of _ ys] exI [of _ y]) simp

text \<open>
  The phase does not only move round the cycle \<open>waiting\<close>, \<open>voting\<close>, \<open>results\<close>.
  On the first server \<open>next-round\<close> takes an open vote back to \<open>waiting\<close>, and
  \<open>start-voting\<close> takes a finished round straight to \<open>voting\<close>.  On the second server
  the callback of a countdown that \<open>next-round\<close> has overtaken takes the room from
  \<open>waiting\<close> to \<open>results\<close>.
\<close>

theorem phase_cycle_counterexample:
  "gamePhase (run1 [Join ''a'' (JSString ''Ann''), Join ''b'' (JSString ''Bob''),
       StartVoting ''a''] gameState0) = voting \<and>
   gamePhase (run1 [Join ''a'' (JSString ''Ann''), Join ''b'' (JSString ''Bob''),
       StartVoting ''a'', NextRound ''b''] gameState0) = waiting \<and>
   gamePhase (run1 [Join ''a'' (JSString ''Ann''), Join ''b'' (JSString ''Bob''),
       StartVoting ''a'', SubmitVote ''a'' (JSNumber (Num 3)),
       SubmitVote ''b'' (JSNumber (Num 5))] gameState0) = results \<and>
   gamePhase (run1 [Join ''a'' (JSString ''Ann''), Join ''b'' (JSString ''Bob''),
       StartVoting ''a'', SubmitVote ''a'' (JSNumber (Num 3)),
       SubmitVote ''b'' (JSNumber (Num 5)), StartVoting ''b''] gameState0) = voting \<and>
   gamePhase (room (run2 [Client (Join ''a'' (JSString ''Ann'')), Client (StartVoting ''a''),
       Client (SubmitVote ''a'' (JSNumber (Num 3))), Client (NextRound ''a'')] server0))
     = waiting \<and>
   gamePhase (room (run2 [Client (Join ''a'' (JSString ''Ann'')), Client (StartVoting ''a''),
       Client (SubmitVote ''a'' (JSNumber (Num 3))), Client (NextRound ''a''), Timeout]
       server0)) = results"
  by (simp add: first_server_runs second_server_runs del: run1.simps run2.simps)

text \<open>
  C6, as the code has it.  On the first server an operation either keeps the phase or
  takes one of five edges: \<open>start-voting\<close>, with two players or more, takes
  \<open>waiting\<close> or \<open>results\<close> to \<open>voting\<close>; a \<open>submit-vote\<close> takes \<open>voting\<close> to
  \<open>results\<close>; \<open>next-round\<close> takes \<open>voting\<close> or \<open>results\<close> to \<open>waiting\<close>.  On the
  second server an event either keeps the phase or takes one of six edges:
  \<open>start-voting\<close> takes \<open>waiting\<close> or \<open>results\<close> to \<open>voting\<close>; \<open>next-round\<close> takes
  \<open>voting\<close> or \<open>results\<close> to \<open>waiting\<close>; the callback of a pending countdown takes
  \<open>voting\<close> or \<open>waiting\<close> to \<open>results\<close>; \<open>submit-vote\<close> keeps the phase.
  \<open>join-game\<close> and \<open>disconnect\<close> keep the phase on both.  Each of these edges is taken
  by some run from the start, so the first server never goes from \<open>waiting\<close> to
  \<open>results\<close> in one step and the second server takes every edge between two phases.
\<close>

theorem phase_edges:
  "(gamePhase (fst (step1 x s)) = gamePhase s \<or>
    (\<exists>c. x = StartVoting c) \<and> 2 \<le> map_size (players s) \<and>
      (gamePhase s, gamePhase (fst (step1 x s))) \<in> {(waiting, voting), (results, voting)} \<or>
    (\<exists>c v. x = SubmitVote c v) \<and>
      (gamePhase s, gamePhase (fst (step1 x s))) = (voting, results) \<or>
    (\<exists>c. x = NextRound c) \<and>
      (gamePhase s, gamePhase (fst (step1 x s))) \<in> {(voting, waiting), (results, waiting)}) \<and>
   (gamePhase (room (fst (step2 y S))) = gamePhase (room S) \<or>
    (\<exists>c. y = Client (StartVoting c)) \<and>
      (gamePhase (room S), gamePhase (room (fst (step2 y S))))
        \<in> {(waiting, voting), (results, voting)} \<or>
    (\<exists>c. y = Client (NextRound c)) \<and>
      (gamePhase (room S), gamePhase (room (fst (step2 y S))))
        \<in> {(voting, waiting), (results, waiting)} \<or>
    y = Timeout \<and> 0 < timers S \<and>
      (gamePhase (room S), gamePhase (room (fst (step2 y S))))
        \<in> {(voting, results), (waiting, results)}) \<and>
   (\<forall>e \<in> {(waiting, voting), (results, voting), (voting, results), (voting, waiting),
            (results, waiting)}.
      \<exists>xs x. e = (gamePhase (run1 xs gameState0),
                   gamePhase (fst (step1 x (run1 xs gameState0))))) \<and>
   (\<forall>e \<in> {(waiting, voting), (results, voting), (voting, results), (waiting, results),
            (voting, waiting), (results, waiting)}.
      \<exists>ys y. e = (gamePhase (room (run2 ys server0)),
                   gamePhase (room (fst (step2 y (run2 ys server0))))))"
proof (intro conjI ballI)
  let ?J = "[Join ''a'' (JSString ''Ann''), Join ''b'' (JSString ''Bob'')]"
  let ?V = "[Join ''a'' (JSString ''Ann''), Join ''b'' (JSString ''Bob''), StartVoting ''a'']"
  let ?A = "[Join ''a'' (JSString ''Ann''), Join ''b'' (JSString ''Bob''), StartVoting ''a'',
             SubmitVote ''a'' (JSNumber (Num 3))]"
  let ?R = "[Join ''a'' (JSString ''Ann''), Join ''b'' (JSString ''Bob''), StartVoting ''a'',
             SubmitVote ''a'' (JSNumber (Num 3)), SubmitVote ''b'' (JSNumber (Num 5))]"
  fix e :: "phase \<times> phase"
  assume "e \<in> {(waiting, voting), (results, voting), (voting, results), (voting, waiting),
            (results, waiting)}"
  then consider "e = (waiting, voting)" | "e = (results, voting)" | "e = (voting, results)"
    | "e = (voting, waiting)" | "e = (results, waiting)"
    by auto
  then show "\<exists>xs x. e = (gamePhase (run1 xs gameState0),
                          gamePhase (fst (step1 x (run1 xs gameState0))))"
  proof cases
    case 1
    show ?thesis unfolding 1
      by (rule edge1_taken [of ?J _ "StartVoting ''a''"])
        (simp_all only: append.simps first_server_runs)
  next
    case 2
    show ?thesis unfolding 2
      by (rule edge1_taken [of ?R _ "StartVoting ''b''"])
        (simp_all only: append.simps first_server_runs)
  next
    case 3
    show ?thesis unfolding 3
      by (rule edge1_taken [of ?A _ "SubmitVote ''b'' (JSNumber (Num 5))"])
        (simp_all only: append.simps first_server_runs)
  next
    case 4
    show ?thesis unfolding 4
      by (rule edge1_taken [of ?V _ "NextRound ''b''"])
        (simp_all only: append.simps first_server_runs)
  next
    case 5
    show ?thesis unfolding 5
      by (rule edge1_taken [of ?R _ "NextRound ''a''"])
        (simp_all only: append.simps first_server_runs)
  qed
next
  let ?J = "[Client (Join ''a'' (JSString ''Ann''))]"
  let ?V = "[Client (Join ''a'' (JSString ''Ann'')), Client (StartVoting ''a'')]"
  let ?C = "[Client (Join ''a'' (JSString ''Ann'')), Client (StartVoting ''a''),
             Client (SubmitVote ''a'' (JSNumber (Num 3)))]"
  let ?R = "[Client (Join ''a'' (JSString ''Ann'')), Client (StartVoting ''a''),
             Client (SubmitVote ''a'' (JSNumber (Num 3))), Timeout]"
  let ?W = "[Client (Join ''a'' (JSString ''Ann'')), Client (StartVoting ''a''),
             Client (SubmitVote ''a'' (JSNumber (Num 3))), Client (NextRound ''a'')]"
  fix e :: "phase \<times> phase"
  assume "e \<in> {(waiting, voting), (results, voting), (voting, results), (waiting, results),
            (voting, waiting), (results, waiting)}"
  then consider "e = (waiting, voting)" | "e = (results, voting)" | "e = (voting, results)"
    | "e = (waiting, results)" | "e = (voting, waiting)" | "e = (results, waiting)"
    by auto
  then show "\<exists>ys y. e = (gamePhase (room (run2 ys server0)),
                          gamePhase (room (fst (step2 y (run2 ys server0)))))"
  proof cases
    case 1
    show ?thesis unfolding 1
      by (rule edge2_taken [of ?J _ "Client (StartVoting ''a'')"])
        (simp_all only: append.simps second_server_runs)
  next
    case 2
    show ?thesis unfolding 2
      by (rule edge2_taken [of ?R _ "Client (StartVoting ''a'')"])
        (simp_all only: append.simps second_server_runs)
  next
    case 3
    show ?thesis unfolding 3
      by (rule edge2_taken [of ?C _ Timeout])
        (simp_all only: append.simps second_server_runs)
  next
    case 4
    show ?thesis unfolding 4
      by (rule edge2_taken [of ?W _ Timeout])
        (simp_all only: append.simps second_server_runs)
  next
    case 5
    show ?thesis unfolding 5
      by (rule edge2_taken [of ?V _ "Client (NextRound ''a'')"])
        (simp_all only: append.simps second_server_runs)
  next
    case 6
    show ?thesis unfolding 6
      by (rule edge2_taken [of ?R _ "Client (NextRound ''a'')"])
        (simp_all only: append.simps second_server_runs)
  qed
qed (rule step1_edge step2_edge)+

theorem phase_edges_witness:
  "gamePhase (fst (step1 (NextRound ''a'') ann_voted)) = waiting \<and>
   gamePhase (fst (step1 (StartVoting ''a'') (ann_voted\<lparr>gamePhase := results\<rparr>))) = voting \<and>
   gamePhase (room (fst (step2 Timeout
     \<lparr>room = ann_voted\<lparr>gamePhase := waiting, votes := []\<rparr>, timers = 1\<rparr>))) = results"
  using phase_edges [of "NextRound ''a''" ann_voted Timeout
      "\<lparr>room = ann_voted\<lparr>gamePhase := waiting, votes := []\<rparr>, timers = 1\<rparr>"]
    phase_edges [of "StartVoting ''a''" "ann_voted\<lparr>gamePhase := results\<rparr>" Timeout
      "\<lparr>room = ann_voted\<lparr>gamePhase := waiting, votes := []\<rparr>, timers = 1\<rparr>"]
  by (simp add: ann_voted_def next_round_def start_voting1_def reveal_def map_size_def Let_def)

subsection \<open>A vote cast during the countdown\<close>







subsection \<open>Voting again\<close>

text \<open>
  C8.  When a player who has a vote in the map submits a valid vote again during
  \<open>voting\<close>, the new value replaces the old one, the size of the vote map does not
  change and the progress that is sent counts the player once, on both servers.
\<close>

theorem revote_overwrites:
  assumes "gamePhase s = voting" and "map_has (players s) c" and "map_has (votes s) c"
    and "q1 \<in> set deck1" and "q2 \<in> set deck2"
  shows "let r1 = submit_vote1 c (JSNumber (Num q1)) s;
             r2 = submit_vote2 c (JSNumber (Num q2)) s
         in map_size (votes (fst r1)) = map_size (votes s) \<and>
            map_option vote (map_get (votes (fst r1)) c) = Some q1 \<and>
            VoteCountUpdate (map_size (votes s)) (map_size (players s)) \<in> set (snd r1) \<and>
            map_size (votes (fst r2)) = map_size (votes s) \<and>
            map_option vote (map_get (votes (fst r2)) c) = Some q2 \<and>
            VoteCountUpdate (map_size (votes s)) (map_size (players s)) \<in> set (snd r2)"
proof -
  from map_has_get [OF assms(2)] obtain p where p: "map_get (players s) c = Some p" ..
  note v1 = submit_vote1_valid [OF assms(1) p assms(4)]
  note v2 = submit_vote2_valid [OF assms(1) p assms(5)]
  from assms(3) show ?thesis
    by (simp add: v1 v2 Let_def record_vote_fields voteCountUpdate_def
        map_size_set_present map_get_set_same)
qed

theorem revote_overwrites_witness:
  "gamePhase ann_voted = voting \<and> map_has (players ann_voted) ''a'' \<and>
   map_has (votes ann_voted) ''a'' \<and> 5 \<in> set deck1 \<and> 8 \<in> set deck2 \<and>
   votes (fst (submit_vote1 ''a'' (JSNumber (Num 5)) ann_voted))
     = [(''a'', \<lparr>playerId = ''a'', playerName = ''Ann'', vote = 5\<rparr>)] \<and>
   votes (fst (submit_vote2 ''a'' (JSNumber (Num 8)) ann_voted))
     = [(''a'', \<lparr>playerId = ''a'', playerName = ''Ann'', vote = 8\<rparr>)]"
  using revote_overwrites [of ann_voted "''a''" 5 8]
  by (simp add: ann_voted_def ann_def bob_def deck1_def deck2_def submit_vote1_def
      submit_vote2_def deck_guard_def record_vote_def map_size_def Let_def)

subsection \<open>Too few players to start\<close>

text \<open>
  C9.  On the first server \<open>start-voting\<close> with fewer than two players does nothing: the
  room (phase and votes included) is returned as it was and nothing is sent.
\<close>

theorem start_voting_needs_two:
  "map_size (players s) < 2 \<Longrightarrow>
     start_voting1 s = (s, []) \<and> step1 (StartVoting c) s = (s, [])"
  by (simp add: start_voting1_def)

theorem start_voting_needs_two_witness:
  "map_size (players (fst (join_game ''a'' (JSString ''Ann'') gameState0))) = 1 \<and>
   start_voting1 (fst (join_game ''a'' (JSString ''Ann'') gameState0))
     = (fst (join_game ''a'' (JSString ''Ann'') gameState0), [])"
  using start_voting_needs_two [of "fst (join_game ''a'' (JSString ''Ann'') gameState0)" "''a''"]
  by (simp add: join_game_def gameState0_def Let_def map_size_def)

subsection \<open>Joining again\<close>

text \<open>
  C10.  \<open>join-game\<close> changes neither the vote map nor the phase, whatever its payload.
  So when a player joins again under another name during \<open>voting\<close>, the vote stays in
  the map with the name it was cast under, and is still counted.
\<close>

theorem join_keeps_votes_and_phase:
  "votes (fst (join_game c n s)) = votes s \<and>
   gamePhase (fst (join_game c n s)) = gamePhase s \<and>
   map_get (votes (fst (join_game c n s))) c = map_get (votes s) c \<and>
   map_size (votes (fst (join_game c n s))) = map_size (votes s)"
  by (simp add: join_game_votes join_game_phase)

theorem join_keeps_votes_and_phase_witness:
  "map_get (players (fst (join_game ''a'' (JSString ''Zed'') ann_voted))) ''a''
     = Some \<lparr>id' = ''a'', name = ''Zed'', connected = True\<rparr> \<and>
   map_get (votes (fst (join_game ''a'' (JSString ''Zed'') ann_voted))) ''a''
     = Some \<lparr>playerId = ''a'', playerName = ''Ann'', vote = 3\<rparr> \<and>
   map_size (votes (fst (join_game ''a'' (JSString ''Zed'') ann_voted))) = 1 \<and>
   gamePhase (fst (join_game ''a'' (JSString ''Zed'') ann_voted)) = voting"
  using join_keeps_votes_and_phase [of "''a''" "JSString ''Zed''" ann_voted]
  by (simp add: join_game_def ann_voted_def Let_def map_size_def trim_def is_white_space_def)

end
